theory Spec2Isabelle
  imports Main "HOL-Library.Word" "HOL-Library.Sublist"
begin

section \<open>The retry-wrapped request sender (editors/code/src/ctx.ts)\<close>

text \<open>
  A value caught by \<open>catch (err)\<close>: either an error object, of which the code reads
  only the \<open>code\<close> property (absent on an error that is not a response error), or a
  thrown string such as the trailing \<open>throw 'unreachable'\<close>, whose \<open>code\<close> is
  undefined.
\<close>

datatype js_thrown = ErrorObject "int option" string | ThrownString string

fun code :: "js_thrown \<Rightarrow> int option" where
  "code (ErrorObject c m) = c"
| "code (ThrownString s) = None"

text \<open>\<open>lc.ErrorCodes.ContentModified\<close> of the language-client library.\<close>

definition ContentModified :: int where
  "ContentModified = - 32801"

text \<open>
  What the sender does to the outside world, in order: a call of
  \<open>client.sendRequest\<close> (with the token as third argument when one was given, with
  two arguments otherwise) or a \<open>sleep\<close> of some milliseconds.
\<close>

datatype ('p, 't) event = SendRequest string 'p "'t option" | Sleep int

fun is_send :: "('p, 't) event \<Rightarrow> bool" where
  "is_send (SendRequest m p t) = True"
| "is_send (Sleep ms) = False"

definition sends :: "('p, 't) event list \<Rightarrow> nat" where
  "sends tr = length (filter is_send tr)"

text \<open>
  The language client is the environment: its answer to a request may depend on how
  many requests this run has sent before (the document changes between attempts). An
  answer is the awaited result, or the value the rejected promise throws.
\<close>

type_synonym ('p, 't, 'r) client = "nat \<Rightarrow> string \<Rightarrow> 'p \<Rightarrow> 't option \<Rightarrow> js_thrown + 'r"

text \<open>JavaScript's \<open>a << n\<close>: a 32-bit signed shift whose count is taken modulo 32.\<close>

definition shl32 :: "int \<Rightarrow> nat \<Rightarrow> int" where
  "shl32 a n = sint (push_bit (n mod 32) (word_of_int a :: 32 word))"

text \<open>
  The body of \<open>for (const delay of ...)\<close>, by recursion on the delays still to try
  (\<open>None\<close> is \<open>null\<close>); falling out of the loop reaches \<open>throw 'unreachable'\<close>. The
  trace collects the events so far.
\<close>

fun retry_loop ::
  "('p, 't, 'r) client \<Rightarrow> string \<Rightarrow> 'p \<Rightarrow> 't option \<Rightarrow> nat option list \<Rightarrow>
   ('p, 't) event list \<Rightarrow> (js_thrown + 'r) \<times> ('p, 't) event list" where
  "retry_loop client method param token [] tr = (Inl (ThrownString ''unreachable''), tr)"
| "retry_loop client method param token (delay # delays) tr =
     (let tr1 = tr @ [SendRequest method param token] in
      case client (sends tr) method param token of
        Inr res \<Rightarrow> (Inr res, tr1)
      | Inl err \<Rightarrow>
          (case delay of
             None \<Rightarrow> (Inl err, tr1)
           | Some d \<Rightarrow>
               if code err \<noteq> Some ContentModified then (Inl err, tr1)
               else retry_loop client method param token delays
                      (tr1 @ [Sleep (10 * shl32 1 d)])))"

text \<open>An answer that is a failure of the "content modified" kind.\<close>

fun content_modified :: "js_thrown + 'r \<Rightarrow> bool" where
  "content_modified (Inl err) = (code err = Some ContentModified)"
| "content_modified (Inr res) = False"

definition sendRequestWithRetry ::
  "('p, 't, 'r) client \<Rightarrow> string \<Rightarrow> 'p \<Rightarrow> 't option \<Rightarrow>
   (js_thrown + 'r) \<times> ('p, 't) event list" where
  "sendRequestWithRetry client method param token =
     retry_loop client method param token
       [Some 2, Some 4, Some 6, Some 8, Some 10, None] []"

section \<open>The color theme loader\<close>

text \<open>
  \<open>interface TextMateRuleSettings\<close>: three optional strings; \<open>None\<close> is a field
  that is undefined.
\<close>

record TextMateRuleSettings =
  foreground :: "string option"
  background :: "string option"
  fontStyle :: "string option"

text \<open>
  The \<open>scope\<close> of a rule as \<open>fromRules\<close> tests it with \<open>typeof\<close>: undefined, one
  string, or an array of strings.
\<close>

datatype rule_scope = ScopeUndefined | ScopeString string | ScopeArray "string list"

record TextMateRule =
  scope :: rule_scope
  settings :: TextMateRuleSettings

text \<open>
  A JavaScript \<open>Map\<close> keeps its entries in insertion order, one entry per key:
  \<open>set\<close> on a key already present replaces the value where the entry stands, and
  \<open>set\<close> on a new key appends an entry; \<open>get\<close> answers undefined (\<open>None\<close>) for
  a missing key; \<open>forEach\<close> visits the entries from first to last.
\<close>

type_synonym ('k, 'v) js_map = "('k \<times> 'v) list"

fun Map_get :: "'k \<Rightarrow> ('k, 'v) js_map \<Rightarrow> 'v option" where
  "Map_get k [] = None"
| "Map_get k ((k', v') # m) = (if k' = k then Some v' else Map_get k m)"

fun Map_set :: "'k \<Rightarrow> 'v \<Rightarrow> ('k, 'v) js_map \<Rightarrow> ('k, 'v) js_map" where
  "Map_set k v [] = [(k, v)]"
| "Map_set k v ((k', v') # m) =
     (if k' = k then (k, v) # m else (k', v') # Map_set k v m)"

definition Map_invariant :: "('k, 'v) js_map \<Rightarrow> bool" where
  "Map_invariant m = distinct (map fst m)"

record ColorTheme =
  rules :: "(string, TextMateRuleSettings) js_map"

definition new_ColorTheme :: ColorTheme where
  "new_ColorTheme = \<lparr>rules = []\<rparr>"

text \<open>\<open>a ?? b\<close> on optional values.\<close>

definition nullish :: "'a option \<Rightarrow> 'a option \<Rightarrow> 'a option" where
  "nullish a b = (case a of Some x \<Rightarrow> Some x | None \<Rightarrow> b)"

definition mergeRuleSettings ::
  "TextMateRuleSettings option \<Rightarrow> TextMateRuleSettings \<Rightarrow> TextMateRuleSettings" where
  "mergeRuleSettings defaultSetting override =
     \<lparr>foreground = nullish (foreground override) (Option.bind defaultSetting foreground),
      background = nullish (background override) (Option.bind defaultSetting background),
      fontStyle = nullish (fontStyle override) (Option.bind defaultSetting fontStyle)\<rparr>"

text \<open>The \<open>scopes\<close> constant computed for each rule in \<open>fromRules\<close>.\<close>

definition scopes_of :: "TextMateRule \<Rightarrow> string list" where
  "scopes_of rule =
     (case scope rule of
        ScopeUndefined \<Rightarrow> []
      | ScopeString s \<Rightarrow> [s]
      | ScopeArray ss \<Rightarrow> ss)"

definition fromRules :: "TextMateRule list \<Rightarrow> ColorTheme" where
  "fromRules rs =
     fold (\<lambda>rule res.
             fold (\<lambda>scope res. res\<lparr>rules := Map_set scope (settings rule) (rules res)\<rparr>)
               (scopes_of rule) res)
       rs new_ColorTheme"

text \<open>\<open>scope.startsWith(key)\<close> is \<open>prefix key scope\<close>; \<open>res\<close> starts as \<open>{}\<close>.\<close>

definition lookup :: "ColorTheme \<Rightarrow> string list \<Rightarrow> TextMateRuleSettings" where
  "lookup this scopes =
     fold (\<lambda>scope res.
             fold (\<lambda>(key, value) res.
                     if prefix key scope then mergeRuleSettings (Some res) value else res)
               (rules this) res)
       scopes \<lparr>foreground = None, background = None, fontStyle = None\<rparr>"

definition mergeFrom :: "ColorTheme \<Rightarrow> ColorTheme \<Rightarrow> ColorTheme" where
  "mergeFrom this other =
     fold (\<lambda>(key, value) this.
             this\<lparr>rules :=
               Map_set key (mergeRuleSettings (Map_get key (rules this)) value) (rules this)\<rparr>)
       (rules other) this"

text \<open>
  What \<open>loadThemeFile\<close> takes from outside: \<open>fs.readFileSync\<close> (\<open>None\<close> when it
  throws), \<open>jsonc.parse\<close> (\<open>None\<close> for a null or undefined result, and each of the two
  properties read from the object may be missing), and the path of an include,
  \<open>path.join(path.dirname(themePath), include)\<close>.
\<close>

record theme_json =
  tokenColors :: "TextMateRule list option"
  include_list :: "string list option"

record host =
  readFileSync :: "string \<Rightarrow> string option"
  parse :: "string \<Rightarrow> theme_json option"
  includePath :: "string \<Rightarrow> string \<Rightarrow> string"

text \<open>\<open>obj?.tokenColors ?? []\<close> and \<open>obj?.include ?? []\<close>.\<close>

definition tokenColors_of :: "theme_json option \<Rightarrow> TextMateRule list" where
  "tokenColors_of obj = (case Option.bind obj tokenColors of None \<Rightarrow> [] | Some tc \<Rightarrow> tc)"

definition includes_of :: "theme_json option \<Rightarrow> string list" where
  "includes_of obj = (case Option.bind obj include_list of None \<Rightarrow> [] | Some is \<Rightarrow> is)"

text \<open>
  The recursion through the includes has no cycle guard and need not end, so the model
  takes the depth it may recurse to: \<open>None\<close> is a chain of includes deeper than that.
\<close>

fun loadThemeFile :: "nat \<Rightarrow> host \<Rightarrow> string \<Rightarrow> ColorTheme option" where
  "loadThemeFile 0 h themePath = None"
| "loadThemeFile (Suc n) h themePath =
     (case readFileSync h themePath of
        None \<Rightarrow> Some new_ColorTheme
      | Some text \<Rightarrow>
          (let obj = parse h text;
               res = fromRules (tokenColors_of obj)
           in fold (\<lambda>inc res.
                      case res of
                        None \<Rightarrow> None
                      | Some r \<Rightarrow>
                          (case loadThemeFile n h (includePath h themePath inc) of
                             None \<Rightarrow> None
                           | Some t \<Rightarrow> Some (mergeFrom r t)))
                (includes_of obj) (Some res)))"

text \<open>One visit of \<open>other.rules.forEach\<close> in \<open>mergeFrom\<close>, on the receiver's map.\<close>

definition merge_step ::
  "string \<times> TextMateRuleSettings \<Rightarrow> (string, TextMateRuleSettings) js_map \<Rightarrow>
   (string, TextMateRuleSettings) js_map" where
  "merge_step kv m = Map_set (fst kv) (mergeRuleSettings (Map_get (fst kv) m) (snd kv)) m"

section \<open>Properties of the request sender\<close>

lemma shl32_vals: "shl32 1 2 = 2 ^ 2" "shl32 1 4 = 2 ^ 4" "shl32 1 6 = 2 ^ 6" "shl32 1 8 = 2 ^ 8" "shl32 1 10 = 2 ^ 10"
  by (simp_all add: shl32_def)

lemma sends_append: "sends (tr @ tr') = sends tr + sends tr'"
  by (simp add: sends_def)

lemma content_modified_Inl:
  "content_modified a \<Longrightarrow> \<exists>err. a = Inl err \<and> code err = Some ContentModified"
  by (cases a) auto

text \<open>
  The loop after \<open>k\<close> failures of the retried kind: the next answer ends it when it is
  a result, an error of another kind, or the answer to the attempt whose delay is
  \<open>null\<close>.
\<close>

lemma retry_loop_stops:
  assumes "k < length delays"
    and "\<forall>i<k. delays ! i \<noteq> None \<and> content_modified (client (sends tr + i) method param token)"
    and "\<not> content_modified (client (sends tr + k) method param token) \<or> delays ! k = None"
  shows "retry_loop client method param token delays tr =
           (client (sends tr + k) method param token,
            tr @ concat (map (\<lambda>d. [SendRequest method param token, Sleep (10 * shl32 1 (the d))])
                          (take k delays))
               @ [SendRequest method param token])"
  using assms
proof (induction delays arbitrary: k tr)
  case Nil
  then show ?case by simp
next
  case (Cons delay delays)
  show ?case
  proof (cases k)
    case 0
    with Cons.prems(3) show ?thesis
      by (cases "client (sends tr) method param token"; cases delay) auto
  next
    case (Suc j)
    let ?tr = "(tr @ [SendRequest method param token]) @ [Sleep (10 * shl32 1 (the delay))]"
    from Cons.prems(2) Suc obtain d where d: "delay = Some d"
      by (cases delay) auto
    from Cons.prems(2) Suc have "content_modified (client (sends tr) method param token)"
      by auto
    then obtain err where err: "client (sends tr) method param token = Inl err"
      "code err = Some ContentModified"
      using content_modified_Inl by blast
    have s: "sends ?tr = Suc (sends tr)"
      by (simp add: sends_def)
    have 1: "j < length delays" using Cons.prems(1) Suc by simp
    have 2: "\<forall>i<j. delays ! i \<noteq> None \<and> content_modified (client (sends ?tr + i) method param token)"
    proof (intro allI impI)
      fix i assume "i < j"
      then have "Suc i < k" using Suc by simp
      with Cons.prems(2) show "delays ! i \<noteq> None \<and> content_modified (client (sends ?tr + i) method param token)"
        unfolding s by fastforce
    qed
    have 3: "\<not> content_modified (client (sends ?tr + j) method param token) \<or> delays ! j = None"
      using Cons.prems(3) Suc unfolding s by simp
    from Cons.IH [OF 1 2 3] show ?thesis
      unfolding s by (simp add: err d Suc)
  qed
qed

text \<open>
  C1. When each of the six attempts fails with a "content modified" error, the sender
  sends the request exactly six times and sleeps between consecutive attempts
  \<open>10 * 2 ^ d\<close> milliseconds for \<open>d = 2, 4, 6, 8, 10\<close> in this order; then it fails,
  with what the sixth attempt threw.
\<close>

theorem sendRequestWithRetry_all_content_modified:
  assumes "\<forall>i<6. content_modified (client i method param token)"
  shows "sendRequestWithRetry client method param token =
     (client 5 method param token,
      [SendRequest method param token, Sleep (10 * 2 ^ 2),
       SendRequest method param token, Sleep (10 * 2 ^ 4),
       SendRequest method param token, Sleep (10 * 2 ^ 6),
       SendRequest method param token, Sleep (10 * 2 ^ 8),
       SendRequest method param token, Sleep (10 * 2 ^ 10),
       SendRequest method param token])"
proof -
  obtain e0 where e0: "client 0 method param token = Inl e0" "code e0 = Some ContentModified"
    using assms content_modified_Inl by (metis zero_less_numeral)
  obtain e1 where e1: "client (Suc 0) method param token = Inl e1" "code e1 = Some ContentModified"
    using assms content_modified_Inl[of "client 1 method param token"] by auto
  obtain e2 where e2: "client (Suc (Suc 0)) method param token = Inl e2" "code e2 = Some ContentModified"
    using assms content_modified_Inl[of "client 2 method param token"] by (auto simp: numeral_2_eq_2)
  obtain e3 where e3: "client (Suc (Suc (Suc 0))) method param token = Inl e3" "code e3 = Some ContentModified"
    using assms content_modified_Inl[of "client 3 method param token"] by (auto simp: numeral_3_eq_3)
  obtain e4 where e4: "client (Suc (Suc (Suc (Suc 0)))) method param token = Inl e4" "code e4 = Some ContentModified"
    using assms content_modified_Inl[of "client 4 method param token"] by (auto simp: eval_nat_numeral)
  obtain e5 where e5: "client (Suc (Suc (Suc (Suc (Suc 0))))) method param token = Inl e5" 
    using assms content_modified_Inl[of "client 5 method param token"] by (auto simp: eval_nat_numeral)
  have five: "(5::nat) = Suc (Suc (Suc (Suc (Suc 0))))" by simp
  show ?thesis
    unfolding sendRequestWithRetry_def
    by (simp add: e0 e1 e2 e3 e4 e5 five sends_def shl32_vals)
qed

theorem sendRequestWithRetry_all_content_modified_witness:
  "sendRequestWithRetry
     (\<lambda>i m p t. Inl (ErrorObject (Some (- 32801)) ''content modified'') :: js_thrown + unit)
     ''textDocument/hover'' (0 :: nat) (None :: unit option) =
   (Inl (ErrorObject (Some (- 32801)) ''content modified''),
    [SendRequest ''textDocument/hover'' 0 None, Sleep 40,
     SendRequest ''textDocument/hover'' 0 None, Sleep 160,
     SendRequest ''textDocument/hover'' 0 None, Sleep 640,
     SendRequest ''textDocument/hover'' 0 None, Sleep 2560,
     SendRequest ''textDocument/hover'' 0 None, Sleep 10240,
     SendRequest ''textDocument/hover'' 0 None])"
  using sendRequestWithRetry_all_content_modified
    [of "\<lambda>i m p t. Inl (ErrorObject (Some (- 32801)) ''content modified'') :: js_thrown + unit"
        "''textDocument/hover''" "0 :: nat" "None :: unit option"]
  by (simp add: ContentModified_def)

text \<open>
  C2. When the underlying send raises an error that is not of the "content modified"
  kind, the sender has called it exactly once, raises that same error, and has not
  slept or retried.
\<close>

theorem sendRequestWithRetry_other_error:
  assumes "client 0 method param token = Inl err" and "code err \<noteq> Some ContentModified"
  shows "sendRequestWithRetry client method param token =
           (Inl err, [SendRequest method param token])"
  using assms by (simp add: sendRequestWithRetry_def sends_def)

theorem sendRequestWithRetry_other_error_witness:
  "sendRequestWithRetry
     (\<lambda>i m p t. Inl (ErrorObject (Some (- 32600)) ''invalid request'') :: js_thrown + unit)
     ''textDocument/hover'' (0 :: nat) (None :: unit option) =
   (Inl (ErrorObject (Some (- 32600)) ''invalid request''),
    [SendRequest ''textDocument/hover'' 0 None])"
  using sendRequestWithRetry_other_error
    [of "\<lambda>i m p t. Inl (ErrorObject (Some (- 32600)) ''invalid request'') :: js_thrown + unit"
        "''textDocument/hover''" "0 :: nat" "None :: unit option"
        "ErrorObject (Some (- 32600)) ''invalid request''"]
  by (simp add: ContentModified_def)

text \<open>
  C3, as stated: a sixth failure of the "content modified" kind would surface as the
  \<open>'unreachable'\<close> sentinel. It does not: with a client that always fails so, the
  caller gets the error object of the sixth attempt.
\<close>

theorem sendRequestWithRetry_unreachable_counterexample:
  "fst (sendRequestWithRetry
          (\<lambda>i m p t. Inl (ErrorObject (Some ContentModified) ''content modified'') :: js_thrown + unit)
          ''textDocument/hover'' () (None :: unit option))
   \<noteq> Inl (ThrownString ''unreachable'')"
  by (simp add: sendRequestWithRetry_def sends_def)

text \<open>
  C3, amended. When the first five attempts fail with a "content modified" error and
  the sixth attempt fails too, the sender raises the error of the sixth attempt
  itself: for the last entry of the schedule, \<open>null\<close>, the handler rethrows whatever
  it caught.
\<close>

theorem sendRequestWithRetry_final_error:
  assumes "\<forall>i<5. content_modified (client i method param token)"
    and "client 5 method param token = Inl err"
  shows "fst (sendRequestWithRetry client method param token) = Inl err"
proof -
  let ?delays = "[Some 2, Some 4, Some 6, Some 8, Some 10, None :: nat option]"
  have 1: "5 < length ?delays" by simp
  have 2: "\<forall>i<5. ?delays ! i \<noteq> None \<and> content_modified (client (sends [] + i) method param token)"
  proof (intro allI impI)
    fix i :: nat assume "i < 5"
    then have "i = 0 \<or> i = 1 \<or> i = 2 \<or> i = 3 \<or> i = 4" by arith
    then have "?delays ! i \<noteq> None" by auto
    then show "?delays ! i \<noteq> None \<and> content_modified (client (sends [] + i) method param token)"
      using assms(1) \<open>i < 5\<close> by (simp add: sends_def)
  qed
  have 3: "\<not> content_modified (client (sends [] + 5) method param token) \<or> ?delays ! 5 = None"
    by simp
  show ?thesis
    unfolding sendRequestWithRetry_def
      retry_loop_stops [where k = 5 and tr = "[]" and client = client, OF 1 2 3]
    using assms(2) by (simp add: sends_def)
qed

theorem sendRequestWithRetry_final_error_witness:
  "fst (sendRequestWithRetry
          (\<lambda>i m p t. Inl (ErrorObject (Some (- 32801)) ''content modified'') :: js_thrown + unit)
          ''textDocument/hover'' (0 :: nat) (None :: unit option)) =
   Inl (ErrorObject (Some (- 32801)) ''content modified'')"
  using sendRequestWithRetry_final_error
    [of "\<lambda>i m p t. Inl (ErrorObject (Some (- 32801)) ''content modified'') :: js_thrown + unit"
        "''textDocument/hover''" "0 :: nat" "None :: unit option"
        "ErrorObject (Some (- 32801)) ''content modified''"]
  by (simp add: ContentModified_def)

text \<open>
  C4. For \<open>k < 6\<close> (the attempts are counted from 0 here, so this is attempt
  \<open>k + 1\<close> of 1 to 6): when the attempts before it fail with a "content modified"
  error and it succeeds, the sender returns its result, having sent the request
  \<open>k + 1\<close> times, slept after each failure, and done nothing after the success.
\<close>

theorem sendRequestWithRetry_success_at:
  assumes "k < 6"
    and "\<forall>i<k. content_modified (client i method param token)"
    and "client k method param token = Inr res"
  shows "sendRequestWithRetry client method param token =
           (Inr res,
            concat (map (\<lambda>d. [SendRequest method param token, Sleep (10 * 2 ^ d)])
                      (take k [2, 4, 6, 8, 10]))
              @ [SendRequest method param token])
         \<and> sends (snd (sendRequestWithRetry client method param token)) = Suc k"
proof -
  let ?delays = "[Some 2, Some 4, Some 6, Some 8, Some 10, None :: nat option]"
  have 1: "k < length ?delays" using assms(1) by simp
  have 2: "\<forall>i<k. ?delays ! i \<noteq> None \<and> content_modified (client (sends [] + i) method param token)"
  proof (intro allI impI)
    fix i assume "i < k"
    then have "i < 5" using assms(1) by simp
    then have "i = 0 \<or> i = 1 \<or> i = 2 \<or> i = 3 \<or> i = 4" by arith
    then have "?delays ! i \<noteq> None" by auto
    then show "?delays ! i \<noteq> None \<and> content_modified (client (sends [] + i) method param token)"
      using assms(2) \<open>i < k\<close> by (simp add: sends_def)
  qed
  have 3: "\<not> content_modified (client (sends [] + k) method param token) \<or> ?delays ! k = None"
    using assms(3) by (simp add: sends_def)
  have m: "map (\<lambda>d. [SendRequest method param token, Sleep (10 * shl32 1 (the d))]) (take k ?delays)
     = map (\<lambda>d. [SendRequest method param token, Sleep (10 * 2 ^ d)]) (take k [2, 4, 6, 8, 10])"
  proof -
    from assms(1) have "k = 0 \<or> k = 1 \<or> k = 2 \<or> k = 3 \<or> k = 4 \<or> k = 5" by arith
    then show ?thesis
      by (elim disjE) (simp_all add: shl32_vals)
  qed
  have r: "sendRequestWithRetry client method param token =
           (Inr res,
            concat (map (\<lambda>d. [SendRequest method param token, Sleep (10 * 2 ^ d)])
                      (take k [2, 4, 6, 8, 10]))
              @ [SendRequest method param token])"
    unfolding sendRequestWithRetry_def
      retry_loop_stops [where k = k and tr = "[]" and client = client, OF 1 2 3] m
    using assms(3) by (simp add: sends_def)
  have "sends (concat (map (\<lambda>d. [SendRequest method param token, Sleep (10 * 2 ^ d)]) ds)) = length ds" for ds :: "nat list"
    by (induction ds) (simp_all add: sends_def)
  with assms(1) have "sends (snd (sendRequestWithRetry client method param token)) = Suc k"
    unfolding r by (simp add: sends_append) (simp add: sends_def)
  with r show ?thesis by simp
qed

theorem sendRequestWithRetry_success_at_witness:
  "sendRequestWithRetry
     (\<lambda>i m p t. if i < 2 then Inl (ErrorObject (Some (- 32801)) ''content modified'')
                 else Inr (i + 40))
     ''textDocument/hover'' (0 :: nat) (None :: unit option) =
   (Inr 42,
    [SendRequest ''textDocument/hover'' 0 None, Sleep 40,
     SendRequest ''textDocument/hover'' 0 None, Sleep 160,
     SendRequest ''textDocument/hover'' 0 None])
   \<and> sends (snd (sendRequestWithRetry
        (\<lambda>i m p t. if i < 2 then Inl (ErrorObject (Some (- 32801)) ''content modified'')
                    else Inr (i + 40))
        ''textDocument/hover'' (0 :: nat) (None :: unit option))) = 3"
  using sendRequestWithRetry_success_at
    [of 2 "\<lambda>i m p t. if i < 2 then Inl (ErrorObject (Some (- 32801)) ''content modified'')
                       else Inr (i + 40)"
        "''textDocument/hover''" "0 :: nat" "None :: unit option" 42]
  by (simp add: ContentModified_def sends_def)

section \<open>Properties of the color theme\<close>

lemma Map_get_set: "Map_get k' (Map_set k v m) = (if k' = k then Some v else Map_get k' m)"
  by (induction m) auto

lemma Map_get_map_of: "Map_get k m = map_of m k"
  by (induction m) auto

lemma Map_get_None_iff: "Map_get k m = None \<longleftrightarrow> k \<notin> fst ` set m"
  by (simp add: Map_get_map_of map_of_eq_None_iff)

lemma keys_Map_set:
  "map fst (Map_set k v m) = (if k \<in> fst ` set m then map fst m else map fst m @ [k])"
  by (induction m) (auto simp: rev_image_eqI)

lemma Map_invariant_set: "Map_invariant m \<Longrightarrow> Map_invariant (Map_set k v m)"
  by (simp add: Map_invariant_def keys_Map_set)

lemma rules_mergeFrom: "rules (mergeFrom A B) = fold merge_step (rules B) (rules A)"
proof -
  have "rules (fold (\<lambda>(key, value) this.
             this\<lparr>rules :=
               Map_set key (mergeRuleSettings (Map_get key (rules this)) value) (rules this)\<rparr>) xs A)
        = fold merge_step xs (rules A)" for xs
    by (induction xs arbitrary: A) (auto simp: merge_step_def)
  then show ?thesis by (simp add: mergeFrom_def)
qed

lemma fold_merge_step_frame:
  "k \<notin> fst ` set xs \<Longrightarrow> Map_get k (fold merge_step xs m) = Map_get k m"
  by (induction xs arbitrary: m) (auto simp: merge_step_def Map_get_set)

lemma fold_merge_step_hit:
  "distinct (map fst xs) \<Longrightarrow> Map_get k xs = Some b \<Longrightarrow>
   Map_get k (fold merge_step xs m) = Some (mergeRuleSettings (Map_get k m) b)"
proof (induction xs arbitrary: m)
  case Nil
  then show ?case by simp
next
  case (Cons p xs)
  obtain k' v' where p: "p = (k', v')" by (cases p)
  show ?case
  proof (cases "k' = k")
    case True
    with Cons.prems p have "b = v'" and "k \<notin> fst ` set xs" by auto
    then show ?thesis
      by (simp add: p True fold_merge_step_frame) (simp add: merge_step_def Map_get_set)
  next
    case False
    with Cons.prems p have "distinct (map fst xs)" and "Map_get k xs = Some b" by auto
    from Cons.IH [OF this] show ?thesis
      using False by (simp add: p) (simp add: merge_step_def Map_get_set)
  qed
qed

lemma Map_invariant_fold_merge_step: "Map_invariant m \<Longrightarrow> Map_invariant (fold merge_step xs m)"
  by (induction xs arbitrary: m) (auto simp: merge_step_def Map_invariant_set)

text \<open>
  C5. For a theme built from a rule for scope \<open>comment\<close> and then a rule for scope
  \<open>comment.line\<close>, \<open>lookup\<close> of \<open>["comment.line"]\<close> merges the two rules' settings
  field by field: each field is that of \<open>comment.line\<close> when it is defined there, and
  that of \<open>comment\<close> otherwise.
\<close>

theorem lookup_comment_line:
  "lookup (fromRules [\<lparr>scope = ScopeString ''comment'', settings = s1\<rparr>,
                      \<lparr>scope = ScopeString ''comment.line'', settings = s2\<rparr>]) [''comment.line'']
   = \<lparr>foreground = (case foreground s2 of Some x \<Rightarrow> Some x | None \<Rightarrow> foreground s1),
      background = (case background s2 of Some x \<Rightarrow> Some x | None \<Rightarrow> background s1),
      fontStyle = (case fontStyle s2 of Some x \<Rightarrow> Some x | None \<Rightarrow> fontStyle s1)\<rparr>"
  by (simp add: lookup_def fromRules_def new_ColorTheme_def scopes_of_def mergeRuleSettings_def nullish_def split: option.splits)

text \<open>
  C6. After \<open>mergeFrom\<close> of theme \<open>B\<close> into theme \<open>A\<close> (the keys of \<open>B\<close>'s map are
  distinct, as in every \<open>Map\<close>): a key of \<open>B\<close> that \<open>A\<close> did not have is stored with
  \<open>B\<close>'s settings, field for field; a key of both is stored, for each of foreground,
  background and fontStyle, with \<open>B\<close>'s field where \<open>B\<close> defines it and with \<open>A\<close>'s
  otherwise.
\<close>

theorem mergeFrom_override:
  fixes A B :: ColorTheme and a b :: TextMateRuleSettings
  assumes "Map_invariant (rules B)"
  shows "(Map_get k (rules B) = Some b \<and> Map_get k (rules A) = None \<longrightarrow>
            Map_get k (rules (mergeFrom A B)) = Some b) \<and>
         (Map_get k (rules B) = Some b \<and> Map_get k (rules A) = Some a \<longrightarrow>
            Map_get k (rules (mergeFrom A B)) =
              Some \<lparr>foreground = (case foreground b of Some x \<Rightarrow> Some x | None \<Rightarrow> foreground a),
                    background = (case background b of Some x \<Rightarrow> Some x | None \<Rightarrow> background a),
                    fontStyle = (case fontStyle b of Some x \<Rightarrow> Some x | None \<Rightarrow> fontStyle a)\<rparr>)"
  using assms
  by (auto simp: rules_mergeFrom Map_invariant_def fold_merge_step_hit mergeRuleSettings_def nullish_def split: option.splits)

theorem mergeFrom_override_witness:
  "Map_get ''b'' (rules (mergeFrom
       \<lparr>rules = [(''a'', \<lparr>foreground = Some ''red'', background = Some ''black'', fontStyle = None\<rparr>)]\<rparr>
       \<lparr>rules = [(''a'', \<lparr>foreground = Some ''blue'', background = None, fontStyle = None\<rparr>),
                 (''b'', \<lparr>foreground = None, background = None, fontStyle = Some ''bold''\<rparr>)]\<rparr>))
     = Some \<lparr>foreground = None, background = None, fontStyle = Some ''bold''\<rparr>
   \<and> Map_get ''a'' (rules (mergeFrom
       \<lparr>rules = [(''a'', \<lparr>foreground = Some ''red'', background = Some ''black'', fontStyle = None\<rparr>)]\<rparr>
       \<lparr>rules = [(''a'', \<lparr>foreground = Some ''blue'', background = None, fontStyle = None\<rparr>),
                 (''b'', \<lparr>foreground = None, background = None, fontStyle = Some ''bold''\<rparr>)]\<rparr>))
     = Some \<lparr>foreground = Some ''blue'', background = Some ''black'', fontStyle = None\<rparr>"
  using mergeFrom_override [of
       "\<lparr>rules = [(''a'', \<lparr>foreground = Some ''blue'', background = None, fontStyle = None\<rparr>),
                 (''b'', \<lparr>foreground = None, background = None, fontStyle = Some ''bold''\<rparr>)]\<rparr>"
       "''b''" "\<lparr>foreground = None, background = None, fontStyle = Some ''bold''\<rparr>"
       "\<lparr>rules = [(''a'', \<lparr>foreground = Some ''red'', background = Some ''black'', fontStyle = None\<rparr>)]\<rparr>"
       "\<lparr>foreground = None, background = None, fontStyle = None\<rparr>"]
    mergeFrom_override [of
       "\<lparr>rules = [(''a'', \<lparr>foreground = Some ''blue'', background = None, fontStyle = None\<rparr>),
                 (''b'', \<lparr>foreground = None, background = None, fontStyle = Some ''bold''\<rparr>)]\<rparr>"
       "''a''" "\<lparr>foreground = Some ''blue'', background = None, fontStyle = None\<rparr>"
       "\<lparr>rules = [(''a'', \<lparr>foreground = Some ''red'', background = Some ''black'', fontStyle = None\<rparr>)]\<rparr>"
       "\<lparr>foreground = Some ''red'', background = Some ''black'', fontStyle = None\<rparr>"]
  by (simp add: Map_invariant_def)

text \<open>
  C10. \<open>mergeFrom\<close> leaves every key that the other theme \<open>B\<close> does not have as it
  was in \<open>A\<close>: with the same settings when \<open>A\<close> has it, and still missing when \<open>A\<close>
  has not.
\<close>

theorem mergeFrom_frame:
  "Map_get k (rules B) = None \<Longrightarrow> Map_get k (rules (mergeFrom A B)) = Map_get k (rules A)"
  by (simp add: rules_mergeFrom fold_merge_step_frame Map_get_None_iff)

theorem mergeFrom_frame_witness:
  "Map_get ''c'' (rules (mergeFrom
       \<lparr>rules = [(''c'', \<lparr>foreground = Some ''red'', background = Some ''black'', fontStyle = None\<rparr>)]\<rparr>
       \<lparr>rules = [(''a'', \<lparr>foreground = Some ''blue'', background = None, fontStyle = None\<rparr>)]\<rparr>))
     = Some \<lparr>foreground = Some ''red'', background = Some ''black'', fontStyle = None\<rparr>"
  using mergeFrom_frame [of "''c''"
       "\<lparr>rules = [(''a'', \<lparr>foreground = Some ''blue'', background = None, fontStyle = None\<rparr>)]\<rparr>"
       "\<lparr>rules = [(''c'', \<lparr>foreground = Some ''red'', background = Some ''black'', fontStyle = None\<rparr>)]\<rparr>"]
  by simp

text \<open>The maps that \<open>fromRules\<close> and \<open>mergeFrom\<close> build have one entry per key.\<close>

lemma rules_fold_set:
  "rules (fold (\<lambda>scope res. res\<lparr>rules := Map_set scope v (rules res)\<rparr>) ss t)
   = fold (\<lambda>scope. Map_set scope v) ss (rules t)"
  by (induction ss arbitrary: t) auto

lemma rules_fromRules_snoc:
  "rules (fromRules (rs @ [r])) =
   fold (\<lambda>scope. Map_set scope (settings r)) (scopes_of r) (rules (fromRules rs))"
  by (simp add: fromRules_def rules_fold_set)

lemma Map_get_fold_set:
  "Map_get k (fold (\<lambda>scope. Map_set scope v) ss m) =
   (if k \<in> set ss then Some v else Map_get k m)"
  by (induction ss arbitrary: m) (auto simp: Map_get_set)

lemma Map_get_fromRules_snoc:
  "Map_get k (rules (fromRules (rs @ [r]))) =
   (if k \<in> set (scopes_of r) then Some (settings r) else Map_get k (rules (fromRules rs)))"
  by (simp add: rules_fromRules_snoc Map_get_fold_set)

lemma Map_get_fromRules_append:
  "\<forall>r \<in> set rs'. k \<notin> set (scopes_of r) \<Longrightarrow>
   Map_get k (rules (fromRules (rs @ rs'))) = Map_get k (rules (fromRules rs))"
proof (induction rs' rule: rev_induct)
  case Nil
  then show ?case by simp
next
  case (snoc r rs')
  then show ?case
    using Map_get_fromRules_snoc [of k "rs @ rs'" r] by simp
qed

lemma Map_invariant_fromRules: "Map_invariant (rules (fromRules rs))"
proof (induction rs rule: rev_induct)
  case Nil
  then show ?case by (simp add: fromRules_def new_ColorTheme_def Map_invariant_def)
next
  case (snoc r rs)
  have "Map_invariant m \<Longrightarrow> Map_invariant (fold (\<lambda>scope. Map_set scope v) ss m)"
    for ss and v :: TextMateRuleSettings and m :: "(string, TextMateRuleSettings) js_map"
    by (induction ss arbitrary: m) (simp_all add: Map_invariant_set)
  with snoc show ?case by (simp add: rules_fromRules_snoc)
qed

lemma Map_invariant_mergeFrom:
  "Map_invariant (rules A) \<Longrightarrow> Map_invariant (rules (mergeFrom A B))"
  by (simp add: rules_mergeFrom Map_invariant_fold_merge_step)

text \<open>
  C8. \<open>fromRules\<close> of one rule with scope \<open>["a", "b"]\<close> stores the rule's settings under
  \<open>a\<close> and under \<open>b\<close>. In general the last rule of a list contributes as follows:
  with an undefined scope it changes no key; with a string scope it puts its settings
  under that key; with an array it puts them under every key of the array; all other
  keys stay as the rules before it left them.
\<close>

theorem fromRules_scope_expansion:
  "rules (fromRules [\<lparr>scope = ScopeArray [''a'', ''b''], settings = s\<rparr>]) = [(''a'', s), (''b'', s)]
   \<and> Map_get k (rules (fromRules (rs @ [r]))) =
       (case scope r of
          ScopeUndefined \<Rightarrow> Map_get k (rules (fromRules rs))
        | ScopeString x \<Rightarrow> if k = x then Some (settings r) else Map_get k (rules (fromRules rs))
        | ScopeArray xs \<Rightarrow> if k \<in> set xs then Some (settings r) else Map_get k (rules (fromRules rs)))"
proof -
  have "rules (fromRules [\<lparr>scope = ScopeArray [''a'', ''b''], settings = s\<rparr>]) = [(''a'', s), (''b'', s)]"
    by (simp add: fromRules_def new_ColorTheme_def scopes_of_def)
  moreover have "Map_get k (rules (fromRules (rs @ [r]))) =
       (case scope r of
          ScopeUndefined \<Rightarrow> Map_get k (rules (fromRules rs))
        | ScopeString x \<Rightarrow> if k = x then Some (settings r) else Map_get k (rules (fromRules rs))
        | ScopeArray xs \<Rightarrow> if k \<in> set xs then Some (settings r) else Map_get k (rules (fromRules rs)))"
    by (simp add: Map_get_fromRules_snoc scopes_of_def split: rule_scope.splits)
  ultimately show ?thesis by simp
qed

text \<open>
  C9. When two rules of one \<open>fromRules\<close> call target the same key (and no rule after
  the later one does), the key holds the settings record of the later rule as it is:
  nothing of the earlier rule's record is merged in, so a field that only the earlier
  rule defines is lost, as the foreground \<open>red\<close> is at the concrete input below.
\<close>

theorem fromRules_later_rule_replaces:
  assumes "k \<in> set (scopes_of earlier)" and "k \<in> set (scopes_of later)"
    and "\<forall>r \<in> set rs3. k \<notin> set (scopes_of r)"
  shows "Map_get k (rules (fromRules (rs1 @ [earlier] @ rs2 @ [later] @ rs3))) = Some (settings later)"
proof -
  have "Map_get k (rules (fromRules (((rs1 @ [earlier] @ rs2) @ [later]) @ rs3)))
        = Map_get k (rules (fromRules ((rs1 @ [earlier] @ rs2) @ [later])))"
    using assms(3) by (rule Map_get_fromRules_append)
  also have "\<dots> = Some (settings later)"
    using assms(2) by (simp only: Map_get_fromRules_snoc if_True)
  finally show ?thesis by simp
qed

theorem fromRules_later_rule_replaces_witness:
  "Map_get ''a'' (rules (fromRules
      ([] @ [\<lparr>scope = ScopeString ''a'', settings = \<lparr>foreground = Some ''red'', background = None, fontStyle = None\<rparr>\<rparr>]
          @ [] @ [\<lparr>scope = ScopeArray [''b'', ''a''], settings = \<lparr>foreground = None, background = Some ''blue'', fontStyle = None\<rparr>\<rparr>]
          @ [\<lparr>scope = ScopeUndefined, settings = \<lparr>foreground = Some ''green'', background = None, fontStyle = None\<rparr>\<rparr>])))
   = Some \<lparr>foreground = None, background = Some ''blue'', fontStyle = None\<rparr>"
  using fromRules_later_rule_replaces [of "''a''"
      "\<lparr>scope = ScopeString ''a'', settings = \<lparr>foreground = Some ''red'', background = None, fontStyle = None\<rparr>\<rparr>"
      "\<lparr>scope = ScopeArray [''b'', ''a''], settings = \<lparr>foreground = None, background = Some ''blue'', fontStyle = None\<rparr>\<rparr>"
      "[\<lparr>scope = ScopeUndefined, settings = \<lparr>foreground = Some ''green'', background = None, fontStyle = None\<rparr>\<rparr>]"
      "[]" "[]"]
  by (simp add: scopes_of_def)

lemma mergeFrom_empty: "mergeFrom r new_ColorTheme = r"
  by (simp add: mergeFrom_def new_ColorTheme_def)

lemma fold_includes_empty:
  "\<forall>inc \<in> set incs. f inc = Some new_ColorTheme \<Longrightarrow>
   fold (\<lambda>inc res. case res of None \<Rightarrow> None
                    | Some r \<Rightarrow> (case f inc of None \<Rightarrow> None | Some t \<Rightarrow> Some (mergeFrom r t)))
     incs (Some r) = Some r"
  by (induction incs) (simp_all add: mergeFrom_empty)

text \<open>
  C7. Loading a readable theme file whose includes all point to paths that cannot be
  read returns (for every depth bound of at least 2, so the load does end and raises
  nothing) the theme built from the file's own \<open>tokenColors\<close> alone.
\<close>

theorem loadThemeFile_missing_include:
  assumes "readFileSync h themePath = Some text"
    and "\<forall>inc \<in> set (includes_of (parse h text)).
           readFileSync h (includePath h themePath inc) = None"
  shows "loadThemeFile (Suc (Suc n)) h themePath = Some (fromRules (tokenColors_of (parse h text)))"
proof -
  have "\<forall>inc \<in> set (includes_of (parse h text)).
          loadThemeFile (Suc n) h (includePath h themePath inc) = Some new_ColorTheme"
    using assms(2) by simp
  from fold_includes_empty [of _ "\<lambda>inc. loadThemeFile (Suc n) h (includePath h themePath inc)", OF this]
  show ?thesis
    using assms(1) by (simp add: Let_def del: loadThemeFile.simps(2) add: loadThemeFile.simps(2) [of "Suc n"])
qed

theorem loadThemeFile_missing_include_witness:
  "loadThemeFile (Suc (Suc 0))
     \<lparr>readFileSync = (\<lambda>p. if p = ''dark.json'' then Some ''text'' else None),
      parse = (\<lambda>t. Some \<lparr>tokenColors = Some [\<lparr>scope = ScopeString ''comment'',
                               settings = \<lparr>foreground = Some ''#008000'', background = None, fontStyle = None\<rparr>\<rparr>],
                          include_list = Some [''./missing.json'']\<rparr>),
      includePath = (\<lambda>p inc. inc)\<rparr> ''dark.json''
   = Some \<lparr>rules = [(''comment'', \<lparr>foreground = Some ''#008000'', background = None, fontStyle = None\<rparr>)]\<rparr>"
  using loadThemeFile_missing_include [of "\<lparr>readFileSync = (\<lambda>p. if p = ''dark.json'' then Some ''text'' else None),
      parse = (\<lambda>t. Some \<lparr>tokenColors = Some [\<lparr>scope = ScopeString ''comment'',
                               settings = \<lparr>foreground = Some ''#008000'', background = None, fontStyle = None\<rparr>\<rparr>],
                          include_list = Some [''./missing.json'']\<rparr>),
      includePath = (\<lambda>p inc. inc)\<rparr>" "''dark.json''" "''text''" 0]
  by (simp add: includes_of_def tokenColors_of_def fromRules_def new_ColorTheme_def scopes_of_def)

end
